theory Spec2Isabelle
  imports Main "HOL-Library.Word" "HOL-Library.AList"
begin

section \<open>JavaScript strings\<close>

text \<open>
  A JavaScript string is a sequence of UTF-16 code units. The regular expressions of
  \<open>page.tsx\<close> carry no \<open>u\<close> flag, so they match code unit by code unit, and
  \<open>trim\<close> strips code units as well; a code unit is a 16-bit word.
\<close>

type_synonym jschar = "16 word"
type_synonym jsstring = "jschar list"

text \<open>String literals of the source, written as Isabelle literals (Latin-1 code units).\<close>

definition js :: "string \<Rightarrow> jsstring" where
  "js s = map (\<lambda>c. word_of_nat (of_char c)) s"

text \<open>
  The class \<open>\s\<close> of a regular expression and the characters removed by
  \<open>String.prototype.trim\<close>: ECMAScript's WhiteSpace and LineTerminator.
\<close>

definition isWhiteSpace :: "jschar \<Rightarrow> bool" where
  "isWhiteSpace c =
     (c = 0x0009 \<or> c = 0x000A \<or> c = 0x000B \<or> c = 0x000C \<or> c = 0x000D \<or> c = 0x0020
      \<or> c = 0x00A0 \<or> c = 0x1680 \<or> (0x2000 \<le> c \<and> c \<le> 0x200A)
      \<or> c = 0x2028 \<or> c = 0x2029 \<or> c = 0x202F \<or> c = 0x205F \<or> c = 0x3000 \<or> c = 0xFEFF)"

text \<open>The class \<open>\w\<close> without the \<open>u\<close> and \<open>i\<close> flags: \<open>[A-Za-z0-9_]\<close>.\<close>

definition isUpper :: "jschar \<Rightarrow> bool" where
  "isUpper c = (0x41 \<le> c \<and> c \<le> 0x5A)"

definition isLower :: "jschar \<Rightarrow> bool" where
  "isLower c = (0x61 \<le> c \<and> c \<le> 0x7A)"

definition isDigit :: "jschar \<Rightarrow> bool" where
  "isDigit c = (0x30 \<le> c \<and> c \<le> 0x39)"

definition isWordChar :: "jschar \<Rightarrow> bool" where
  "isWordChar c = (isUpper c \<or> isLower c \<or> isDigit c \<or> c = 0x5F)"

definition hyphen :: jschar where
  "hyphen = 0x2D"

text \<open>\<open>String.prototype.trim\<close>: white space is removed from both ends.\<close>

definition trim :: "jsstring \<Rightarrow> jsstring" where
  "trim s = rev (dropWhile isWhiteSpace (rev (dropWhile isWhiteSpace s)))"

text \<open>\<open>String.prototype.startsWith\<close> and \<open>String.prototype.includes\<close>.\<close>

fun startsWith :: "jsstring \<Rightarrow> jsstring \<Rightarrow> bool" where
  "startsWith s [] = True"
| "startsWith [] (p # ps) = False"
| "startsWith (c # cs) (p # ps) = (c = p \<and> startsWith cs ps)"

fun includes_str :: "jsstring \<Rightarrow> jsstring \<Rightarrow> bool" where
  "includes_str [] sub = (sub = [])"
| "includes_str (c # cs) sub = (startsWith (c # cs) sub \<or> includes_str cs sub)"

text \<open>
  Two built-ins of the JavaScript engine are driven by the Unicode tables and are not part
  of the repository: \<open>String.prototype.normalize("NFKD")\<close> and
  \<open>String.prototype.toLowerCase\<close>. The model takes them as parameters.
\<close>

record unicode =
  normalizeNFKD :: "jsstring \<Rightarrow> jsstring"
  toLowerCase :: "jsstring \<Rightarrow> jsstring"

text \<open>ASCII lower-casing, the action of \<open>toLowerCase\<close> on Basic Latin.\<close>

definition lowerAscii :: "jschar \<Rightarrow> jschar" where
  "lowerAscii c = (if isUpper c then c + 0x20 else c)"

text \<open>
  The decimal digits of a non-negative integer, as a template literal prints an array
  index or a length.
\<close>

definition digitChar :: "nat \<Rightarrow> jschar" where
  "digitChar d = 0x30 + word_of_nat d"

function decimal :: "nat \<Rightarrow> jsstring" where
  "decimal n = (if n < 10 then [digitChar n] else decimal (n div 10) @ [digitChar (n mod 10)])"
  by pat_completeness auto
termination
  by (relation "measure id") auto

declare decimal.simps [simp del]

section \<open>Slugs\<close>

text \<open>\<open>.replace(/[^\w\s-]/g, "")\<close>: every code unit outside the three classes is deleted.\<close>

definition stripUnsafe :: "jsstring \<Rightarrow> jsstring" where
  "stripUnsafe s = filter (\<lambda>c. isWordChar c \<or> isWhiteSpace c \<or> c = hyphen) s"

text \<open>\<open>.replace(/\s+/g, "-")\<close>: every maximal run of white space becomes one hyphen.\<close>

function collapseWhiteSpace :: "jsstring \<Rightarrow> jsstring" where
  "collapseWhiteSpace [] = []"
| "collapseWhiteSpace (c # cs) =
     (if isWhiteSpace c then hyphen # collapseWhiteSpace (dropWhile isWhiteSpace cs)
      else c # collapseWhiteSpace cs)"
  by pat_completeness auto
termination
  by (relation "measure length") (auto simp: less_Suc_eq_le length_dropWhile_le)

text \<open>The chain of string methods in \<open>slugify\<close> (page.tsx, lines 80-85).\<close>

definition slugChain :: "unicode \<Rightarrow> jsstring \<Rightarrow> jsstring" where
  "slugChain U value =
     toLowerCase U (collapseWhiteSpace (trim (stripUnsafe (normalizeNFKD U value))))"

text \<open>
  \<open>slugify\<close> (page.tsx, lines 79-87). \<open>slug || fallback\<close> takes the fallback exactly when
  the slug is the empty string. \<open>fallbackIndex\<close> is the loop index of \<open>handleGenerate\<close>,
  a natural number.
\<close>

definition slugify :: "unicode \<Rightarrow> jsstring \<Rightarrow> nat \<Rightarrow> jsstring" where
  "slugify U value fallbackIndex =
     (let slug = slugChain U value
      in if slug \<noteq> [] then slug else js ''certificate-'' @ decimal (fallbackIndex + 1))"

text \<open>
  The alphabet of a finished slug, \<open>[a-z0-9_-]\<close>, and the alphabet before lower-casing,
  \<open>[A-Za-z0-9_-]\<close>.
\<close>

definition isSlugChar :: "jschar \<Rightarrow> bool" where
  "isSlugChar c = (isLower c \<or> isDigit c \<or> c = 0x5F \<or> c = hyphen)"

definition isWordOrHyphen :: "jschar \<Rightarrow> bool" where
  "isWordOrHyphen c = (isWordChar c \<or> c = hyphen)"

section \<open>Name extraction\<close>

text \<open>
  \<open>row[selectedColumn] ?? ""\<close>: an index past the end of a row reads \<open>undefined\<close>,
  which \<open>??\<close> replaces by the empty string.
\<close>

definition cellAt :: "jsstring list \<Rightarrow> nat \<Rightarrow> jsstring" where
  "cellAt row col = (if col < length row then row ! col else [])"

text \<open>
  The effect on \<open>[sheetRows, selectedColumn]\<close> (page.tsx, lines 142-159), as the value it
  passes to \<open>setNames\<close>. \<open>sheetRows[0]?.[col] ?? ""\<close> is read only when the sheet has a
  row; \<open>typeof headerCell === "string"\<close> holds for every cell of a \<open>string[][]\<close>.
  \<open>filter(Boolean)\<close> drops the empty strings.
\<close>

definition extracted :: "unicode \<Rightarrow> jsstring list list \<Rightarrow> nat \<Rightarrow> jsstring list" where
  "extracted U sheetRows selectedColumn =
     (if length sheetRows = 0 then []
      else
        let headerCell = cellAt (sheetRows ! 0) selectedColumn;
            hasHeader = includes_str (toLowerCase U headerCell) (js ''name'');
            startIndex = (if hasHeader then 1 else 0 :: nat)
        in filter (\<lambda>value. value \<noteq> [])
             (map trim (map (\<lambda>row. cellAt row selectedColumn) (drop startIndex sheetRows))))"

text \<open>
  The Name Extractor as the specification words it (section 4.1): decide whether row 0 is
  a header, then walk the remaining rows in order, reading the chosen cell (absent: the
  empty string), trimming it, and keeping it when it is not empty.
\<close>

fun collectNames :: "nat \<Rightarrow> jsstring list list \<Rightarrow> jsstring list" where
  "collectNames col [] = []"
| "collectNames col (row # rows) =
     (let name = trim (cellAt row col)
      in if name = [] then collectNames col rows else name # collectNames col rows)"

definition nameList_spec :: "unicode \<Rightarrow> jsstring list list \<Rightarrow> nat \<Rightarrow> jsstring list" where
  "nameList_spec U sheet col =
     (case sheet of
        [] \<Rightarrow> []
      | row0 # rest \<Rightarrow>
          if includes_str (toLowerCase U (cellAt row0 col)) (js ''name'')
          then collectNames col rest
          else collectNames col (row0 # rest))"

section \<open>Application state\<close>

datatype UploadStatus = UploadIdle | UploadParsing | UploadReady | UploadError

datatype GenerateStatus = GenerateIdle | GenerateRunning | GenerateSuccess | GenerateError

text \<open>
  The \<open>useState\<close> cells of \<open>Home\<close> that the handlers below read or write. The cells only
  the canvas and the preview read (position, font size, colour and family, template and
  preview size, dragging, theme) live in the extension slot of the record: every
  function below works on \<open>'a appState_scheme\<close> and leaves the slot as it is.
\<close>

record appState =
  names :: "jsstring list"
  uploadStatus :: UploadStatus
  generateStatus :: GenerateStatus
  statusMessage :: "jsstring option"
  templateSrc :: jsstring
  templateData :: "jsstring option"
  templateError :: "jsstring option"
  sheetRows :: "jsstring list list"
  columnOptions :: "(jsstring \<times> nat) list"
  selectedColumn :: nat

definition initialState :: appState where
  "initialState =
     \<lparr>names = [], uploadStatus = UploadIdle, generateStatus = GenerateIdle,
      statusMessage = None, templateSrc = js ''/template.webp'', templateData = None,
      templateError = None, sheetRows = [], columnOptions = [], selectedColumn = 0\<rparr>"

text \<open>What a \<open>throw\<close> or a rejected promise carries: an \<open>Error\<close> with its message, or
  any other value. The \<open>catch\<close> blocks show the message of an \<open>Error\<close> and a default
  text otherwise.\<close>

datatype thrown = JsError jsstring | NonError

definition catchMessage :: "thrown \<Rightarrow> jsstring \<Rightarrow> jsstring" where
  "catchMessage e dflt = (case e of JsError message \<Rightarrow> message | NonError \<Rightarrow> dflt)"

text \<open>The names effect, run after a render in which \<open>sheetRows\<close> or \<open>selectedColumn\<close> changed.\<close>

definition namesEffect :: "unicode \<Rightarrow> 'a appState_scheme \<Rightarrow> 'a appState_scheme" where
  "namesEffect U st = st\<lparr>names := extracted U (sheetRows st) (selectedColumn st)\<rparr>"

section \<open>Spreadsheet upload\<close>

text \<open>
  A cell as \<open>sheet_to_json\<close> delivers it: \<open>typeof cell\<close> is \<open>"string"\<close>, \<open>"number"\<close> or
  something else (\<open>null\<close>, a hole, a boolean, a date). The numbers are IEEE doubles; their
  type is the parameter \<open>'n\<close> and \<open>String(cell)\<close> is the parameter \<open>numToString\<close>.
  A row is an array, or any other value, which \<open>Array.isArray(row) ? row : [row]\<close> wraps.
\<close>

datatype 'n cell = StringCell jsstring | NumberCell 'n | OtherCell

datatype 'n rawRow = ArrayRow "'n cell list" | SingleRow "'n cell"

text \<open>
  The workbook \<open>XLSX.read\<close> returns; a sheet is represented by the rows
  \<open>XLSX.utils.sheet_to_json(sheet, { header: 1 })\<close> yields for it. The uploaded file
  carries its name and the outcome of \<open>file.arrayBuffer()\<close> followed by \<open>XLSX.read\<close>.
\<close>

record 'n workbook =
  SheetNames :: "jsstring list"
  Sheets :: "jsstring \<Rightarrow> 'n rawRow list option"

record 'n uploadFile =
  fileName :: jsstring
  readResult :: "thrown + 'n workbook"

text \<open>\<open>workbook.Sheets[workbook.SheetNames[0]]\<close>; with no sheet name the key is
  \<open>undefined\<close>, which a property access turns into the string \<open>"undefined"\<close>.\<close>

definition firstSheet :: "'n workbook \<Rightarrow> 'n rawRow list option" where
  "firstSheet wb =
     (case SheetNames wb of [] \<Rightarrow> Sheets wb (js ''undefined'') | n # _ \<Rightarrow> Sheets wb n)"

definition normalizeCell :: "('n \<Rightarrow> jsstring) \<Rightarrow> 'n cell \<Rightarrow> jsstring" where
  "normalizeCell numToString cell =
     (case cell of
        StringCell s \<Rightarrow> trim s
      | NumberCell n \<Rightarrow> numToString n
      | OtherCell \<Rightarrow> [])"

definition normalizeRow :: "('n \<Rightarrow> jsstring) \<Rightarrow> 'n rawRow \<Rightarrow> jsstring list" where
  "normalizeRow numToString row =
     map (normalizeCell numToString) (case row of ArrayRow cells \<Rightarrow> cells | SingleRow c \<Rightarrow> [c])"

text \<open>\<open>row.some((cell) => cell)\<close>: some cell is a non-empty string.\<close>

definition hasValue :: "jsstring list \<Rightarrow> bool" where
  "hasValue row = list_ex (\<lambda>cell. cell \<noteq> []) row"

definition normalizedRows :: "('n \<Rightarrow> jsstring) \<Rightarrow> 'n rawRow list \<Rightarrow> jsstring list list" where
  "normalizedRows numToString rows = filter hasValue (map (normalizeRow numToString) rows)"

definition maxColumns :: "jsstring list list \<Rightarrow> nat" where
  "maxColumns rows = foldl (\<lambda>mx row. max mx (length row)) 0 rows"

text \<open>\<open>Array.prototype.findIndex\<close>: the first index that satisfies the predicate, or -1.\<close>

fun findIndex :: "('a \<Rightarrow> bool) \<Rightarrow> 'a list \<Rightarrow> int" where
  "findIndex P [] = - 1"
| "findIndex P (x # xs) =
     (if P x then 0 else (let r = findIndex P xs in if r < 0 then - 1 else r + 1))"

definition columnOptionsOf :: "jsstring list list \<Rightarrow> (jsstring \<times> nat) list" where
  "columnOptionsOf rows =
     (let headerRow = (case rows of [] \<Rightarrow> [] | r # _ \<Rightarrow> r)
      in map (\<lambda>index.
               (if cellAt headerRow index \<noteq> [] then cellAt headerRow index
                else js ''Column '' @ decimal (index + 1), index))
           [0 ..< maxColumns rows])"

text \<open>The body of the \<open>try\<close> block of \<open>handleUpload\<close> up to the state updates
  (page.tsx, lines 192-218): the normalized rows, or what was thrown.\<close>

definition readSheet :: "('n \<Rightarrow> jsstring) \<Rightarrow> 'n uploadFile \<Rightarrow> thrown + jsstring list list" where
  "readSheet numToString file =
     (case readResult file of
        Inl e \<Rightarrow> Inl e
      | Inr wb \<Rightarrow>
          (case firstSheet wb of
             None \<Rightarrow> Inl (JsError (js ''No sheet found in workbook.''))
           | Some rows \<Rightarrow>
               let nrows = normalizedRows numToString rows
               in if length nrows = 0 then Inl (JsError (js ''No values detected in the sheet.''))
                  else if maxColumns nrows = 0
                  then Inl (JsError (js ''Unable to detect any columns in the sheet.''))
                  else Inr nrows))"

text \<open>
  \<open>handleUpload\<close> (page.tsx, lines 186-240). On success the five setters run and the
  names effect follows, since \<open>sheetRows\<close> is a new array; in the \<open>catch\<close> block only
  the status and the message are set.
\<close>

definition handleUpload ::
  "unicode \<Rightarrow> ('n \<Rightarrow> jsstring) \<Rightarrow> 'a appState_scheme \<Rightarrow> 'n uploadFile option
     \<Rightarrow> 'a appState_scheme" where
  "handleUpload U numToString st fileOpt =
     (case fileOpt of
        None \<Rightarrow> st
      | Some file \<Rightarrow>
          (let st1 = st\<lparr>uploadStatus := UploadParsing, statusMessage := None\<rparr>
           in (case readSheet numToString file of
                 Inr nrows \<Rightarrow>
                   (let options = columnOptionsOf nrows;
                        preferredIndex =
                          findIndex
                            (\<lambda>option. includes_str (toLowerCase U (fst option)) (js ''name''))
                            options
                    in namesEffect U
                         (st1\<lparr>sheetRows := nrows,
                              columnOptions := options,
                              selectedColumn :=
                                (if preferredIndex \<ge> 0 then nat preferredIndex else 0),
                              uploadStatus := UploadReady,
                              statusMessage :=
                                Some (js ''Detected '' @ decimal (length nrows)
                                      @ js '' rows in '' @ fileName file @ js ''.'')\<rparr>))
               | Inl e \<Rightarrow>
                   st1\<lparr>uploadStatus := UploadError,
                       statusMessage :=
                         Some (catchMessage e (js ''Failed to read Excel file.''))\<rparr>)))"

text \<open>The "Clear" button (page.tsx, lines 447-451); the names effect then finds no rows.\<close>

definition clearNames :: "'a appState_scheme \<Rightarrow> 'a appState_scheme" where
  "clearNames st = st\<lparr>names := [], sheetRows := [], columnOptions := []\<rparr>"

section \<open>Template upload\<close>

text \<open>The chosen file: its MIME type, and \<open>reader.result\<close> when the reader loads and the
  result is a string.\<close>

record templateFile =
  fileType :: jsstring
  readerResult :: "jsstring option"

definition handleTemplateUpload ::
  "'a appState_scheme \<Rightarrow> templateFile option \<Rightarrow> 'a appState_scheme" where
  "handleTemplateUpload st fileOpt =
     (case fileOpt of
        None \<Rightarrow> st
      | Some file \<Rightarrow>
          if \<not> startsWith (fileType file) (js ''image/'')
          then st\<lparr>templateError := Some (js ''Please choose an image file (JPG, PNG, SVG).'')\<rparr>
          else (case readerResult file of
                  None \<Rightarrow> st
                | Some result \<Rightarrow>
                    st\<lparr>templateSrc := result, templateData := Some result,
                       templateError := None\<rparr>))"

definition resetTemplate :: "'a appState_scheme \<Rightarrow> 'a appState_scheme" where
  "resetTemplate st =
     st\<lparr>templateSrc := js ''/template.webp'', templateData := None, templateError := None\<rparr>"

section \<open>Batch generation\<close>

text \<open>
  Modelled from the spec: the archive writer. \<open>JSZip\<close> is a dependency and its code
  is not in the repository. Section 4.4 fixes what \<open>zip.file(name, data)\<close> does: the
  entry is inserted under its name, and an entry added under a name that is already
  present silently replaces the earlier one. An archive is the list of its entries, in
  the order in which their names were first added.
\<close>

type_synonym 'png archive = "(jsstring \<times> 'png) list"

definition zip_file :: "'png archive \<Rightarrow> jsstring \<Rightarrow> 'png \<Rightarrow> 'png archive" where
  "zip_file zp name content = AList.update name content zp"

text \<open>
  What the browser answers during one run of \<open>handleGenerate\<close>:
  \<^item> \<open>fontsLoad\<close>: what awaiting \<open>document.fonts.ready\<close> and \<open>document.fonts.load(fontSpec)\<close>
    throws, if anything;
  \<^item> \<open>dateNow\<close>: \<open>Date.now()\<close> as the template literal prints it;
  \<^item> \<open>decodeImage\<close>: the image element for a source when \<open>onload\<close> fires, \<open>None\<close> when
    \<open>onerror\<close> fires;
  \<^item> \<open>getContext2d\<close>: whether \<open>canvas.getContext("2d")\<close> is not \<open>null\<close>;
  \<^item> \<open>drawCertificate\<close>: the canvas calls of one loop iteration for a name (clear, draw the
    template, set fill style, alignment, baseline and font, fill the text at
    \<open>(posX, posY)\<close>), then \<open>toDataURL\<close> and \<open>split(",")[1]\<close>: the encoded image, or
    what was thrown. Every iteration sets the same style and position, so within a run
    the result depends on the name alone;
  \<^item> \<open>generateAsync\<close>: what \<open>zip.generateAsync\<close> throws, if anything.
\<close>

record ('img, 'png) browser =
  fontsLoad :: "thrown option"
  dateNow :: jsstring
  decodeImage :: "jsstring \<Rightarrow> 'img option"
  getContext2d :: bool
  drawCertificate :: "'img \<Rightarrow> jsstring \<Rightarrow> thrown + 'png"
  generateAsync :: "thrown option"

text \<open>\<open>loadImage\<close> (page.tsx, lines 89-96): the promise resolves with the image, or
  rejects with the error of line 94.\<close>

definition loadImage :: "('img, 'png) browser \<Rightarrow> jsstring \<Rightarrow> thrown + 'img" where
  "loadImage env src =
     (case decodeImage env src of
        Some img \<Rightarrow> Inr img
      | None \<Rightarrow> Inl (JsError (js ''Unable to load template image. Please try again.'')))"

text \<open>\<open>imageSource\<close> (page.tsx, lines 275-278); \<open>templateData &&\<close> asks for a string that
  is neither \<open>null\<close> nor empty.\<close>

definition imageSource :: "('img, 'png) browser \<Rightarrow> 'a appState_scheme \<Rightarrow> jsstring" where
  "imageSource env st =
     (if (case templateData st of None \<Rightarrow> False | Some d \<Rightarrow> d \<noteq> [])
         \<and> startsWith (templateSrc st) (js ''data:'')
      then templateSrc st
      else templateSrc st @ js ''?cache='' @ dateNow env)"

text \<open>The \<open>for\<close> loop of \<open>handleGenerate\<close> (page.tsx, lines 295-311), from \<open>index\<close> on. A
  throw inside an iteration leaves the loop.\<close>

function generateLoop ::
  "unicode \<Rightarrow> (jsstring \<Rightarrow> thrown + 'png) \<Rightarrow> jsstring list \<Rightarrow> nat \<Rightarrow> 'png archive
     \<Rightarrow> thrown + 'png archive" where
  "generateLoop U draw nameList index zp =
     (if index < length nameList
      then (let name = nameList ! index
            in case draw name of
                 Inl e \<Rightarrow> Inl e
               | Inr base64Data \<Rightarrow>
                   generateLoop U draw nameList (index + 1)
                     (zip_file zp (slugify U name index @ js ''.png'') base64Data))
      else Inr zp)"
  by pat_completeness auto
termination
  by (relation "measure (\<lambda>(U, draw, nameList, index, zp). length nameList - index)") auto

declare generateLoop.simps [simp del]

text \<open>The body of the \<open>try\<close> block of \<open>handleGenerate\<close> up to \<open>generateAsync\<close>
  (page.tsx, lines 271-313): the archive, or what was thrown.\<close>

definition buildArchive ::
  "unicode \<Rightarrow> ('img, 'png) browser \<Rightarrow> 'a appState_scheme \<Rightarrow> thrown + 'png archive" where
  "buildArchive U env st =
     (case fontsLoad env of
        Some e \<Rightarrow> Inl e
      | None \<Rightarrow>
          (case loadImage env (imageSource env st) of
             Inl e \<Rightarrow> Inl e
           | Inr templateImage \<Rightarrow>
               if \<not> getContext2d env then Inl (JsError (js ''Canvas context unavailable.''))
               else (case generateLoop U (drawCertificate env templateImage) (names st) 0 [] of
                       Inl e \<Rightarrow> Inl e
                     | Inr zp \<Rightarrow>
                         (case generateAsync env of Some e \<Rightarrow> Inl e | None \<Rightarrow> Inr zp))))"

text \<open>
  \<open>handleGenerate\<close> (page.tsx, lines 265-323): the new state, and the download offered by
  \<open>downloadBlob\<close> (file name and archive) when there is one.
\<close>

definition handleGenerate ::
  "unicode \<Rightarrow> ('img, 'png) browser \<Rightarrow> 'a appState_scheme
     \<Rightarrow> 'a appState_scheme \<times> (jsstring \<times> 'png archive) option" where
  "handleGenerate U env st =
     (if length (names st) = 0 then (st, None)
      else
        (let st1 = st\<lparr>generateStatus := GenerateRunning, statusMessage := None\<rparr>
         in (case buildArchive U env st of
               Inr zp \<Rightarrow>
                 (st1\<lparr>generateStatus := GenerateSuccess,
                      statusMessage :=
                        Some (js ''Certificates are ready. Download should begin shortly.'')\<rparr>,
                  Some (js ''certificates.zip'', zp))
             | Inl e \<Rightarrow>
                 (st1\<lparr>generateStatus := GenerateError,
                      statusMessage :=
                        Some (catchMessage e (js ''Unable to generate certificates.''))\<rparr>,
                  None))))"

text \<open>\<open>canGenerate\<close> (page.tsx, line 340); the button carries \<open>disabled={!canGenerate}\<close>.\<close>

definition canGenerate :: "'a appState_scheme \<Rightarrow> bool" where
  "canGenerate st = (length (names st) > 0 \<and> generateStatus st \<noteq> GenerateRunning)"

text \<open>
  The file name the loop gives to the name at index \<open>i\<close>, the file names of a whole name
  list, and the archive after the first \<open>n\<close> iterations of a run in which every name is
  drawn without a throw (\<open>render\<close> is the encoded image of a name).
\<close>

definition fileNameAt :: "unicode \<Rightarrow> jsstring list \<Rightarrow> nat \<Rightarrow> jsstring" where
  "fileNameAt U nameList i = slugify U (nameList ! i) i @ js ''.png''"

definition fileNames :: "unicode \<Rightarrow> jsstring list \<Rightarrow> jsstring list" where
  "fileNames U nameList = map (fileNameAt U nameList) [0 ..< length nameList]"

definition entriesUpto ::
  "unicode \<Rightarrow> (jsstring \<Rightarrow> 'png) \<Rightarrow> jsstring list \<Rightarrow> nat \<Rightarrow> 'png archive" where
  "entriesUpto U render nameList n =
     fold (\<lambda>i zp. zip_file zp (fileNameAt U nameList i) (render (nameList ! i))) [0 ..< n] []"

section \<open>Concrete inputs\<close>

text \<open>
  An instance of the two built-ins for the examples: it agrees with NFKD on Basic Latin
  and on the letters U+00E9, U+00D1 and U+00F1 (a base letter followed by a combining
  mark), and with \<open>toLowerCase\<close> on Basic Latin.
\<close>

definition decomposeSample :: "jschar \<Rightarrow> jsstring" where
  "decomposeSample c =
     (if c = 0xE9 then [0x65, 0x0301]
      else if c = 0xD1 then [0x4E, 0x0303]
      else if c = 0xF1 then [0x6E, 0x0303]
      else [c])"

definition sampleUnicode :: unicode where
  "sampleUnicode =
     \<lparr>normalizeNFKD = (\<lambda>s. concat (map decomposeSample s)), toLowerCase = map lowerAscii\<rparr>"

text \<open>The name of the specification's scenario, with U+00E9, U+00D1 and U+00F1.\<close>

definition joseNunez :: jsstring where
  "joseNunez = js ''Jos'' @ [0xE9] @ js '' '' @ [0xD1] @ js ''u'' @ [0xF1] @ js ''ez''"

definition joseNunezNFKD :: jsstring where
  "joseNunezNFKD =
     js ''Jose'' @ [0x0301] @ js '' N'' @ [0x0303] @ js ''un'' @ [0x0303] @ js ''ez''"

text \<open>A browser in which every step succeeds; the encoded image is tagged with the name.\<close>

definition okBrowser :: "(unit, jsstring) browser" where
  "okBrowser =
     \<lparr>fontsLoad = None, dateNow = js ''0'', decodeImage = (\<lambda>src. Some ()),
      getContext2d = True, drawCertificate = (\<lambda>img name. Inr (js ''png:'' @ name)),
      generateAsync = None\<rparr>"

text \<open>The same browser, with a template image that fails to decode.\<close>

definition brokenImageBrowser :: "(unit, jsstring) browser" where
  "brokenImageBrowser = okBrowser\<lparr>decodeImage := (\<lambda>src. None)\<rparr>"

text \<open>A state with two loaded names that differ in case only.\<close>

definition twoAlices :: appState where
  "twoAlices =
     initialState\<lparr>names := [js ''Alice'', js ''alice''],
                  sheetRows := [[js ''Alice''], [js ''alice'']],
                  columnOptions := [(js ''Alice'', 0)],
                  uploadStatus := UploadReady\<rparr>"

text \<open>A state with three loaded names that differ in case only.\<close>

definition threeAlices :: appState where
  "threeAlices =
     initialState\<lparr>names := [js ''Alice'', js ''alice'', js ''ALICE''],
                  sheetRows := [[js ''Alice''], [js ''alice''], [js ''ALICE'']],
                  columnOptions := [(js ''Alice'', 0)],
                  uploadStatus := UploadReady\<rparr>"

text \<open>A workbook without any sheet, and an upload of it.\<close>

definition emptyWorkbook :: "nat workbook" where
  "emptyWorkbook = \<lparr>SheetNames = [], Sheets = (\<lambda>n. None)\<rparr>"

definition emptyUpload :: "nat uploadFile" where
  "emptyUpload = \<lparr>fileName = js ''empty.xlsx'', readResult = Inr emptyWorkbook\<rparr>"

text \<open>The sheet of the specification's scenario, as stored, and a workbook whose first
  sheet starts with two blank rows.\<close>

definition scenarioSheet :: "jsstring list list" where
  "scenarioSheet = [[js ''Full Name''], [js ''Alice''], [js ''Bob''], [[]]]"

definition scenarioRows :: "nat rawRow list" where
  "scenarioRows =
     [ArrayRow [], ArrayRow [StringCell (js ''  ''), OtherCell],
      ArrayRow [NumberCell 7, StringCell (js '' Full Name '')],
      ArrayRow [NumberCell 8, StringCell (js ''Alice'')],
      SingleRow OtherCell,
      ArrayRow [NumberCell 9, StringCell (js ''Bob '')]]"

definition scenarioWorkbook :: "nat workbook" where
  "scenarioWorkbook =
     \<lparr>SheetNames = [js ''Sheet1''],
      Sheets = (\<lambda>n. if n = js ''Sheet1'' then Some scenarioRows else None)\<rparr>"

definition scenarioUpload :: "nat uploadFile" where
  "scenarioUpload = \<lparr>fileName = js ''names.xlsx'', readResult = Inr scenarioWorkbook\<rparr>"

text \<open>The state after that workbook has been uploaded into the initial state.\<close>

definition loadedState :: appState where
  "loadedState = handleUpload sampleUnicode decimal initialState (Some scenarioUpload)"

text \<open>An image file and a file of another type, and the state after the image has been
  chosen as the template.\<close>

definition pngFile :: templateFile where
  "pngFile = \<lparr>fileType = js ''image/png'', readerResult = Some (js ''data:image/png;base64,AA=='')\<rparr>"

definition pdfFile :: templateFile where
  "pdfFile =
     \<lparr>fileType = js ''application/pdf'',
      readerResult = Some (js ''data:application/pdf;base64,AA=='')\<rparr>"

definition customTemplateState :: appState where
  "customTemplateState = handleTemplateUpload initialState (Some pngFile)"

section \<open>Character classes: properties\<close>

lemmas char_defs =
  js_def isWhiteSpace_def isUpper_def isLower_def isDigit_def isWordChar_def hyphen_def
  lowerAscii_def digitChar_def

lemma slugChar_not_space: "isSlugChar c \<Longrightarrow> \<not> isWhiteSpace c"
  unfolding isSlugChar_def isWhiteSpace_def isLower_def isDigit_def hyphen_def
  by (auto simp: word_le_def word_less_def)

lemma slugChar_not_upper: "isSlugChar c \<Longrightarrow> \<not> isUpper c"
  unfolding isSlugChar_def isUpper_def isLower_def isDigit_def hyphen_def
  by (auto simp: word_le_def)

lemma slugChar_word_or_hyphen: "isSlugChar c \<Longrightarrow> isWordOrHyphen c"
  by (auto simp: isSlugChar_def isWordOrHyphen_def isWordChar_def)

lemma upper_to_lower: "isUpper c \<Longrightarrow> isLower (c + 0x20)"
  unfolding isUpper_def isLower_def
  by (simp add: word_le_nat_alt unat_word_ariths)

lemma lowerAscii_slugChar: "isWordOrHyphen c \<Longrightarrow> isSlugChar (lowerAscii c)"
  using upper_to_lower [of c]
  by (auto simp: isWordOrHyphen_def isWordChar_def lowerAscii_def isSlugChar_def)

lemma digitChar_isDigit: "d < 10 \<Longrightarrow> isDigit (digitChar d)"
proof -
  assume "d < 10"
  then have "d \<in> {0, 1, 2, 3, 4, 5, 6, 7, 8, 9}" by auto
  then show ?thesis by (auto simp: isDigit_def digitChar_def)
qed

lemma decimal_digits: "list_all isDigit (decimal n)"
proof (induction n rule: decimal.induct)
  case (1 n)
  show ?case
  proof (cases "n < 10")
    case True
    then show ?thesis by (simp add: decimal.simps [of n] digitChar_isDigit)
  next
    case False
    with 1 show ?thesis by (simp add: decimal.simps [of n] digitChar_isDigit)
  qed
qed

lemma decimal_nonempty: "decimal n \<noteq> []"
  by (subst decimal.simps) simp

section \<open>Name extraction: properties\<close>

text \<open>\<open>includes_str\<close> is the substring test.\<close>

lemma startsWith_append: "startsWith s p \<longleftrightarrow> (\<exists>q. s = p @ q)"
  by (induction s p rule: startsWith.induct) auto

lemma includes_str_substring: "includes_str s sub \<longleftrightarrow> (\<exists>p q. s = p @ sub @ q)"
proof (induction s)
  case Nil
  then show ?case by simp
next
  case (Cons c cs)
  show ?case
  proof
    assume "includes_str (c # cs) sub"
    then consider "startsWith (c # cs) sub" | "includes_str cs sub" by auto
    then show "\<exists>p q. c # cs = p @ sub @ q"
    proof cases
      case 1
      then obtain q where "c # cs = sub @ q" by (auto simp: startsWith_append)
      then have "c # cs = [] @ sub @ q" by simp
      then show ?thesis by blast
    next
      case 2
      with Cons obtain p q where "cs = p @ sub @ q" by blast
      then have "c # cs = (c # p) @ sub @ q" by simp
      then show ?thesis by blast
    qed
  next
    assume "\<exists>p q. c # cs = p @ sub @ q"
    then obtain p q where pq: "c # cs = p @ sub @ q" by blast
    show "includes_str (c # cs) sub"
    proof (cases p)
      case Nil
      with pq have "startsWith (c # cs) sub" by (auto simp: startsWith_append)
      then show ?thesis by simp
    next
      case (Cons a p')
      with pq have "cs = p' @ sub @ q" by simp
      with Cons.IH have "includes_str cs sub" by blast
      then show ?thesis by simp
    qed
  qed
qed

lemma collectNames_filter:
  "collectNames col rows
     = filter (\<lambda>v. v \<noteq> []) (map trim (map (\<lambda>row. cellAt row col) rows))"
  by (induction rows) (simp_all add: Let_def)

text \<open>
  C1. For every stored sheet and column, the names the effect extracts are the names
  of the specification's Name Extractor: row 0 is skipped exactly when its cell in the
  chosen column, lower-cased, contains "name"; every remaining row gives its cell in that
  column (the empty string when the row is too short), trimmed; empty results are
  dropped; the order of the rows is kept and equal names are kept.
\<close>

theorem extracted_follows_spec:
  "extracted U sheet col = nameList_spec U sheet col"
proof (cases sheet)
  case Nil
  then show ?thesis by (simp add: extracted_def nameList_spec_def)
next
  case (Cons row0 rest)
  then show ?thesis
    by (simp add: extracted_def nameList_spec_def Let_def collectNames_filter)
qed

text \<open>The scenario of the specification, and a sheet without a header, with a short row
  and a repeated name.\<close>

theorem extracted_follows_spec_witness:
  "extracted sampleUnicode scenarioSheet 0 = [js ''Alice'', js ''Bob'']
   \<and> nameList_spec sampleUnicode scenarioSheet 0 = [js ''Alice'', js ''Bob'']
   \<and> nameList_spec sampleUnicode [[js ''x'', js ''Ann''], [js ''y''], [js ''z'', js '' Ann '']] 1
       = [js ''Ann'', js ''Ann'']"
  using extracted_follows_spec [of sampleUnicode scenarioSheet 0]
    extracted_follows_spec [of sampleUnicode "[[js ''x'', js ''Ann''], [js ''y''], [js ''z'', js '' Ann '']]" 1]
  by (simp add: extracted_def sampleUnicode_def scenarioSheet_def cellAt_def trim_def char_defs)

section \<open>Slugs: properties\<close>

lemma stripUnsafe_classes:
  "list_all (\<lambda>c. isWordOrHyphen c \<or> isWhiteSpace c) (stripUnsafe s)"
  by (auto simp: stripUnsafe_def list_all_iff isWordOrHyphen_def)

lemma set_trim: "set (trim s) \<subseteq> set s"
proof -
  have "set (trim s) = set (dropWhile isWhiteSpace (rev (dropWhile isWhiteSpace s)))"
    by (simp add: trim_def)
  also have "\<dots> \<subseteq> set (rev (dropWhile isWhiteSpace s))"
    by (auto dest: set_dropWhileD)
  also have "\<dots> \<subseteq> set s"
    by (auto dest: set_dropWhileD)
  finally show ?thesis .
qed

lemma collapse_classes:
  "list_all (\<lambda>c. isWordOrHyphen c \<or> isWhiteSpace c) s
     \<Longrightarrow> list_all isWordOrHyphen (collapseWhiteSpace s)"
proof (induction s rule: collapseWhiteSpace.induct)
  case 1
  then show ?case by simp
next
  case (2 c cs)
  show ?case
  proof (cases "isWhiteSpace c")
    case True
    from "2.prems"
    have "list_all (\<lambda>c. isWordOrHyphen c \<or> isWhiteSpace c) (dropWhile isWhiteSpace cs)"
      by (auto simp: list_all_iff dest: set_dropWhileD)
    with True "2.IH"(1) show ?thesis
      by (simp add: isWordOrHyphen_def)
  next
    case False
    with "2.prems" "2.IH"(2) show ?thesis by simp
  qed
qed

lemma slugChain_classes:
  assumes lower: "\<forall>t. list_all isWordOrHyphen t \<longrightarrow> toLowerCase U t = map lowerAscii t"
  shows "list_all isSlugChar (slugChain U s)"
proof -
  let ?t = "collapseWhiteSpace (trim (stripUnsafe (normalizeNFKD U s)))"
  have "list_all (\<lambda>c. isWordOrHyphen c \<or> isWhiteSpace c)
          (trim (stripUnsafe (normalizeNFKD U s)))"
    using stripUnsafe_classes [of "normalizeNFKD U s"]
      set_trim [of "stripUnsafe (normalizeNFKD U s)"]
    by (auto simp: list_all_iff)
  then have t: "list_all isWordOrHyphen ?t"
    by (rule collapse_classes)
  with lower have "slugChain U s = map lowerAscii ?t"
    by (simp add: slugChain_def)
  with t show ?thesis
    by (simp add: list_all_iff lowerAscii_slugChar)
qed

lemma dropWhile_none: "\<forall>c \<in> set s. \<not> P c \<Longrightarrow> dropWhile P s = s"
  by (cases s) simp_all

lemma trim_slug: "list_all isSlugChar t \<Longrightarrow> trim t = t"
  by (simp add: trim_def dropWhile_none list_all_iff slugChar_not_space)

lemma strip_slug: "list_all isSlugChar t \<Longrightarrow> stripUnsafe t = t"
  unfolding stripUnsafe_def
  by (rule filter_True) (auto simp: list_all_iff isSlugChar_def isWordChar_def)

lemma collapse_slug: "list_all isSlugChar t \<Longrightarrow> collapseWhiteSpace t = t"
  by (induction t) (simp_all add: slugChar_not_space)

lemma lower_slug: "list_all isSlugChar t \<Longrightarrow> map lowerAscii t = t"
  by (rule map_idI) (simp add: list_all_iff lowerAscii_def slugChar_not_upper)

lemma slugChain_fixes_slugs:
  assumes nfkd: "\<forall>t. list_all isSlugChar t \<longrightarrow> normalizeNFKD U t = t"
    and lower: "\<forall>t. list_all isWordOrHyphen t \<longrightarrow> toLowerCase U t = map lowerAscii t"
    and t: "list_all isSlugChar t"
  shows "slugChain U t = t"
proof -
  from t have "list_all isWordOrHyphen t"
    by (simp add: list_all_iff slugChar_word_or_hyphen)
  with lower have "toLowerCase U t = t"
    using t by (simp add: lower_slug)
  with nfkd t show ?thesis
    by (simp add: slugChain_def strip_slug trim_slug collapse_slug)
qed

lemma fallback_slug: "list_all isSlugChar (js ''certificate-'' @ decimal n)"
proof -
  have "list_all isSlugChar (js ''certificate-'')"
    by (simp add: js_def isSlugChar_def isLower_def isDigit_def hyphen_def)
  moreover have "list_all isSlugChar (decimal n)"
    using decimal_digits [of n] by (simp add: list_all_iff isSlugChar_def)
  ultimately show ?thesis by simp
qed

lemma slugify_classes:
  assumes lower: "\<forall>t. list_all isWordOrHyphen t \<longrightarrow> toLowerCase U t = map lowerAscii t"
  shows "list_all isSlugChar (slugify U s i)"
  using slugChain_classes [OF lower, of s] fallback_slug [of "i + 1"]
  by (simp add: slugify_def Let_def)

lemma slugify_nonempty: "slugify U s i \<noteq> []"
  by (simp add: slugify_def Let_def decimal_nonempty)

lemma slugify_slug:
  assumes nfkd: "\<forall>t. list_all isSlugChar t \<longrightarrow> normalizeNFKD U t = t"
    and lower: "\<forall>t. list_all isWordOrHyphen t \<longrightarrow> toLowerCase U t = map lowerAscii t"
  shows "slugify U (slugify U s j) i = slugify U s j"
proof -
  have "slugChain U (slugify U s j) = slugify U s j"
    using slugChain_fixes_slugs [OF nfkd lower slugify_classes [OF lower]] .
  with slugify_nonempty [of U s j] show ?thesis
    by (simp add: slugify_def [of U "slugify U s j"] Let_def)
qed

lemma slugify_jose:
  assumes lower: "\<forall>t. list_all isWordOrHyphen t \<longrightarrow> toLowerCase U t = map lowerAscii t"
    and jose: "normalizeNFKD U joseNunez = joseNunezNFKD"
  shows "slugify U joseNunez i = js ''jose-nunez''"
proof -
  have w: "list_all isWordOrHyphen (js ''Jose-Nunez'')"
    by (simp add: isWordOrHyphen_def char_defs)
  have "collapseWhiteSpace (trim (stripUnsafe joseNunezNFKD)) = js ''Jose-Nunez''"
    by (simp add: joseNunezNFKD_def stripUnsafe_def trim_def char_defs)
  with jose lower w have "slugChain U joseNunez = map lowerAscii (js ''Jose-Nunez'')"
    by (simp add: slugChain_def)
  also have "\<dots> = js ''jose-nunez''"
    by (simp add: js_def lowerAscii_def isUpper_def)
  finally show ?thesis
    by (simp add: slugify_def Let_def js_def)
qed

text \<open>
  C4. For every string and index \<open>slugify\<close> returns a non-empty string, and when the chain
  of string methods leaves nothing it returns \<open>certificate-{index+1}\<close>. It returns a slug
  unchanged (with the same or another index): this holds for every NFKD function that
  leaves strings over \<open>[a-z0-9_-]\<close> alone and every lower-casing that acts on strings over
  \<open>[A-Za-z0-9_-]\<close> letter by letter, as the built-ins do. For the name of the
  specification's scenario, whose NFKD form puts a combining mark after e, N and n, the
  slug is "jose-nunez".
\<close>

theorem slugify_properties:
  "slugify U s i \<noteq> []
   \<and> (slugChain U s = [] \<longrightarrow> slugify U s i = js ''certificate-'' @ decimal (i + 1))
   \<and> ((\<forall>t. list_all isSlugChar t \<longrightarrow> normalizeNFKD U t = t)
        \<and> (\<forall>t. list_all isWordOrHyphen t \<longrightarrow> toLowerCase U t = map lowerAscii t)
        \<longrightarrow> slugify U (slugify U s i) i = slugify U s i
            \<and> slugify U (slugify U s j) i = slugify U s j)
   \<and> ((\<forall>t. list_all isWordOrHyphen t \<longrightarrow> toLowerCase U t = map lowerAscii t)
        \<and> normalizeNFKD U joseNunez = joseNunezNFKD
        \<longrightarrow> slugify U joseNunez i = js ''jose-nunez'')"
proof (intro conjI impI)
  show "slugify U s i \<noteq> []"
    by (rule slugify_nonempty)
next
  assume "slugChain U s = []"
  then show "slugify U s i = js ''certificate-'' @ decimal (i + 1)"
    by (simp add: slugify_def)
next
  assume h: "(\<forall>t. list_all isSlugChar t \<longrightarrow> normalizeNFKD U t = t)
        \<and> (\<forall>t. list_all isWordOrHyphen t \<longrightarrow> toLowerCase U t = map lowerAscii t)"
  then show "slugify U (slugify U s i) i = slugify U s i"
    by (simp add: slugify_slug)
  from h show "slugify U (slugify U s j) i = slugify U s j"
    by (simp add: slugify_slug)
next
  assume "(\<forall>t. list_all isWordOrHyphen t \<longrightarrow> toLowerCase U t = map lowerAscii t)
        \<and> normalizeNFKD U joseNunez = joseNunezNFKD"
  then show "slugify U joseNunez i = js ''jose-nunez''"
    by (simp add: slugify_jose)
qed

lemma sample_nfkd: "list_all isSlugChar t \<Longrightarrow> normalizeNFKD sampleUnicode t = t"
proof (induction t)
  case Nil
  then show ?case by (simp add: sampleUnicode_def)
next
  case (Cons c t)
  from Cons.prems have "decomposeSample c = [c]"
    by (auto simp: decomposeSample_def isSlugChar_def isLower_def isDigit_def hyphen_def)
  with Cons show ?case by (simp add: sampleUnicode_def)
qed

text \<open>The sample built-ins satisfy both conditions (shown inside the proof), and give the
  scenario name its NFKD form.\<close>

theorem slugify_properties_witness:
  "normalizeNFKD sampleUnicode joseNunez = joseNunezNFKD
   \<and> slugChain sampleUnicode (js ''?!'') = []
   \<and> slugify sampleUnicode joseNunez 4 = js ''jose-nunez''
   \<and> slugify sampleUnicode (js ''?!'') 4 = js ''certificate-5''
   \<and> slugify sampleUnicode (slugify sampleUnicode (js ''?!'') 4) 4 = js ''certificate-5''"
proof -
  have nfkd: "\<forall>t. list_all isSlugChar t \<longrightarrow> normalizeNFKD sampleUnicode t = t"
    by (simp add: sample_nfkd)
  have lower: "\<forall>t. list_all isWordOrHyphen t
                 \<longrightarrow> toLowerCase sampleUnicode t = map lowerAscii t"
    by (simp add: sampleUnicode_def)
  have jose: "normalizeNFKD sampleUnicode joseNunez = joseNunezNFKD"
    by (simp add: sampleUnicode_def joseNunez_def joseNunezNFKD_def js_def decomposeSample_def)
  have empty: "slugChain sampleUnicode (js ''?!'') = []"
    by (simp add: slugChain_def sampleUnicode_def decomposeSample_def stripUnsafe_def
        trim_def char_defs)
  have dec: "js ''certificate-'' @ decimal 5 = js ''certificate-5''"
    by (simp add: decimal.simps js_def digitChar_def)
  note p = slugify_properties [of sampleUnicode "js ''?!''" 4 4]
  from p empty have "slugify sampleUnicode (js ''?!'') 4 = js ''certificate-'' @ decimal (4 + 1)"
    by blast
  with dec have a: "slugify sampleUnicode (js ''?!'') 4 = js ''certificate-5''"
    by simp
  from p nfkd lower
  have "slugify sampleUnicode (slugify sampleUnicode (js ''?!'') 4) 4
          = slugify sampleUnicode (js ''?!'') 4"
    by blast
  then have b: "slugify sampleUnicode (slugify sampleUnicode (js ''?!'') 4) 4 = js ''certificate-5''"
    using a by (rule trans)
  from p lower jose have c: "slugify sampleUnicode joseNunez 4 = js ''jose-nunez''"
    by blast
  from jose empty a b c show ?thesis
    by blast
qed

section \<open>Spreadsheet upload: properties\<close>

lemma maxColumns_ge_aux:
  "a \<le> foldl (\<lambda>mx row. max mx (length row)) a rows"
proof (induction rows arbitrary: a)
  case Nil
  then show ?case by simp
next
  case (Cons r rows)
  have "a \<le> max a (length r)" by simp
  also have "\<dots> \<le> foldl (\<lambda>mx row. max mx (length row)) (max a (length r)) rows"
    by (rule Cons.IH)
  finally show ?case by simp
qed

lemma hasValue_length: "hasValue row \<Longrightarrow> 0 < length row"
  by (cases row) (simp_all add: hasValue_def)

lemma maxColumns_pos:
  assumes "rows \<noteq> []" and "\<forall>row \<in> set rows. hasValue row"
  shows "0 < maxColumns rows"
proof (cases rows)
  case Nil
  with assms show ?thesis by simp
next
  case (Cons r rest)
  with assms have "0 < length r" using hasValue_length [of r] by simp
  also have "length r \<le> foldl (\<lambda>mx row. max mx (length row)) (max 0 (length r)) rest"
    using maxColumns_ge_aux [of "max 0 (length r)" rest] by simp
  finally show ?thesis using Cons by (simp add: maxColumns_def)
qed

lemma normalizedRows_hasValue: "\<forall>row \<in> set (normalizedRows f rows). hasValue row"
  by (simp add: normalizedRows_def)

lemma readSheet_ok:
  assumes "readResult file = Inr wb" and "firstSheet wb = Some rows"
    and "normalizedRows f rows \<noteq> []"
  shows "readSheet f file = Inr (normalizedRows f rows)"
  using assms maxColumns_pos [OF assms(3) normalizedRows_hasValue]
  by (simp add: readSheet_def Let_def)



lemma handleUpload_ok:
  assumes "readSheet f file = Inr nrows"
  shows "sheetRows (handleUpload U f st (Some file)) = nrows"
    and "uploadStatus (handleUpload U f st (Some file)) = UploadReady"
    and "names (handleUpload U f st (Some file))
           = extracted U nrows (selectedColumn (handleUpload U f st (Some file)))"
  using assms by (simp_all add: handleUpload_def Let_def namesEffect_def)

lemma handleUpload_failed:
  assumes "readSheet f file = Inl e"
  shows "handleUpload U f st (Some file)
           = st\<lparr>uploadStatus := UploadError,
                statusMessage := Some (catchMessage e (js ''Failed to read Excel file.''))\<rparr>"
  using assms by (simp add: handleUpload_def)


lemma scenario_normalized:
  "normalizedRows decimal scenarioRows
     = [[js ''7'', js ''Full Name''], [js ''8'', js ''Alice''], [js ''9'', js ''Bob'']]"
  by (simp add: normalizedRows_def scenarioRows_def normalizeRow_def normalizeCell_def
      hasValue_def trim_def decimal.simps char_defs)

lemma scenario_read:
  "readSheet decimal scenarioUpload
     = Inr [[js ''7'', js ''Full Name''], [js ''8'', js ''Alice''], [js ''9'', js ''Bob'']]"
proof -
  have "readResult scenarioUpload = Inr scenarioWorkbook"
    by (simp add: scenarioUpload_def)
  moreover have "firstSheet scenarioWorkbook = Some scenarioRows"
    by (simp add: firstSheet_def scenarioWorkbook_def)
  moreover have "normalizedRows decimal scenarioRows \<noteq> []"
    by (simp add: scenario_normalized)
  ultimately have "readSheet decimal scenarioUpload = Inr (normalizedRows decimal scenarioRows)"
    by (rule readSheet_ok)
  then show ?thesis by (simp add: scenario_normalized)
qed

lemma loadedState_column: "selectedColumn loadedState = 1"
  unfolding loadedState_def
  by (simp add: handleUpload_def scenario_read Let_def namesEffect_def columnOptionsOf_def
      maxColumns_def cellAt_def sampleUnicode_def upt_rec char_defs)

lemma loadedState_names: "names loadedState = [js ''Alice'', js ''Bob'']"
proof -
  have "names loadedState
          = extracted sampleUnicode
              [[js ''7'', js ''Full Name''], [js ''8'', js ''Alice''], [js ''9'', js ''Bob'']] 1"
    using handleUpload_ok(3) [OF scenario_read, of sampleUnicode initialState] loadedState_column
    by (simp add: loadedState_def)
  also have "\<dots> = [js ''Alice'', js ''Bob'']"
    by (simp add: extracted_def cellAt_def sampleUnicode_def trim_def char_defs)
  finally show ?thesis .
qed



text \<open>
  C3 (amended). When an upload fails because no sheet is found, no row has a value, or no
  column is detected, the upload status becomes the error state and the status message is
  the text of that failure; the name list and the stored rows stay as they were, and
  nothing else in the state changes.
\<close>

theorem upload_failure_state:
  assumes "readResult file = Inr wb"
    and "firstSheet wb = None
         \<or> (\<exists>rows. firstSheet wb = Some rows
              \<and> (normalizedRows f rows = [] \<or> maxColumns (normalizedRows f rows) = 0))"
  shows "uploadStatus (handleUpload U f st (Some file)) = UploadError
         \<and> statusMessage (handleUpload U f st (Some file))
             \<in> {Some (js ''No sheet found in workbook.''),
                Some (js ''No values detected in the sheet.''),
                Some (js ''Unable to detect any columns in the sheet.'')}
         \<and> names (handleUpload U f st (Some file)) = names st
         \<and> sheetRows (handleUpload U f st (Some file)) = sheetRows st
         \<and> handleUpload U f st (Some file)
             = st\<lparr>uploadStatus := UploadError,
                  statusMessage := statusMessage (handleUpload U f st (Some file))\<rparr>"
proof -
  let ?msgs = "{js ''No sheet found in workbook.'', js ''No values detected in the sheet.'',
                js ''Unable to detect any columns in the sheet.''}"
  have "\<exists>m \<in> ?msgs. readSheet f file = Inl (JsError m)"
  proof (cases "firstSheet wb")
    case None
    with assms(1) show ?thesis by (simp add: readSheet_def)
  next
    case (Some rows)
    with assms(2) have "normalizedRows f rows = [] \<or> maxColumns (normalizedRows f rows) = 0"
      by simp
    with assms(1) Some show ?thesis by (auto simp: readSheet_def Let_def)
  qed
  then obtain m where "readSheet f file = Inl (JsError m)" and m: "m \<in> ?msgs"
    by blast
  then have "handleUpload U f st (Some file)
               = st\<lparr>uploadStatus := UploadError, statusMessage := Some m\<rparr>"
    by (simp add: handleUpload_failed catchMessage_def)
  with m show ?thesis by auto
qed

lemma empty_read:
  "readSheet decimal emptyUpload = Inl (JsError (js ''No sheet found in workbook.''))"
  by (simp add: readSheet_def emptyUpload_def emptyWorkbook_def firstSheet_def)

theorem upload_failure_state_witness:
  "readResult emptyUpload = Inr emptyWorkbook
   \<and> firstSheet emptyWorkbook = None
   \<and> uploadStatus (handleUpload sampleUnicode decimal loadedState (Some emptyUpload)) = UploadError
   \<and> statusMessage (handleUpload sampleUnicode decimal loadedState (Some emptyUpload))
       = Some (js ''No sheet found in workbook.'')
   \<and> names (handleUpload sampleUnicode decimal loadedState (Some emptyUpload))
       = [js ''Alice'', js ''Bob'']"
proof -
  have h1: "readResult emptyUpload = Inr emptyWorkbook"
    by (simp add: emptyUpload_def)
  have h2: "firstSheet emptyWorkbook = None"
    by (simp add: firstSheet_def emptyWorkbook_def)
  then have h2': "firstSheet emptyWorkbook = None
         \<or> (\<exists>rows. firstSheet emptyWorkbook = Some rows
              \<and> (normalizedRows decimal rows = [] \<or> maxColumns (normalizedRows decimal rows) = 0))"
    by simp
  have m: "statusMessage (handleUpload sampleUnicode decimal loadedState (Some emptyUpload))
       = Some (js ''No sheet found in workbook.'')"
    by (simp add: handleUpload_failed [OF empty_read] catchMessage_def)
  from upload_failure_state [OF h1 h2', of sampleUnicode loadedState] h1 h2 m loadedState_names
  show ?thesis by simp
qed

text \<open>
  C3 as stated fails: after the scenario workbook has been loaded, the upload of a workbook
  without a sheet ends in the error state and the two names are still there.
\<close>

theorem upload_failure_keeps_names_counterexample:
  "names loadedState = [js ''Alice'', js ''Bob'']
   \<and> uploadStatus (handleUpload sampleUnicode decimal loadedState (Some emptyUpload)) = UploadError
   \<and> names (handleUpload sampleUnicode decimal loadedState (Some emptyUpload)) \<noteq> []"
  by (simp add: loadedState_names handleUpload_failed [OF empty_read])

section \<open>Template upload: properties\<close>

text \<open>
  C8. When the chosen template file is not of an image type, the template error message is
  set and nothing else changes: the template source and the template payload are the
  ones of before.
\<close>

theorem template_upload_rejected:
  assumes "\<not> startsWith (fileType file) (js ''image/'')"
  shows "handleTemplateUpload st (Some file)
           = st\<lparr>templateError := Some (js ''Please choose an image file (JPG, PNG, SVG).'')\<rparr>
         \<and> templateSrc (handleTemplateUpload st (Some file)) = templateSrc st
         \<and> templateData (handleTemplateUpload st (Some file)) = templateData st"
  using assms by (simp add: handleTemplateUpload_def)

lemma customTemplate_eval:
  "templateSrc customTemplateState = js ''data:image/png;base64,AA==''"
  "templateData customTemplateState = Some (js ''data:image/png;base64,AA=='')"
  by (simp_all add: customTemplateState_def handleTemplateUpload_def pngFile_def js_def)

theorem template_upload_rejected_witness:
  "\<not> startsWith (fileType pdfFile) (js ''image/'')
   \<and> templateError (handleTemplateUpload customTemplateState (Some pdfFile))
       = Some (js ''Please choose an image file (JPG, PNG, SVG).'')
   \<and> templateSrc (handleTemplateUpload customTemplateState (Some pdfFile))
       = js ''data:image/png;base64,AA==''
   \<and> templateData (handleTemplateUpload customTemplateState (Some pdfFile))
       = Some (js ''data:image/png;base64,AA=='')"
proof -
  have h: "\<not> startsWith (fileType pdfFile) (js ''image/'')"
    by (simp add: pdfFile_def js_def)
  from template_upload_rejected [OF h, of customTemplateState] h customTemplate_eval
  show ?thesis by simp
qed

section \<open>Batch generation: properties\<close>

text \<open>
  C9. With an empty name list \<open>handleGenerate\<close> returns at once: the state is unchanged
  (no running or error status, no message), nothing is offered for download, and
  \<open>canGenerate\<close> is false, which disables the button.
\<close>

theorem handleGenerate_empty:
  "names st = [] \<Longrightarrow> handleGenerate U env st = (st, None) \<and> \<not> canGenerate st"
  by (simp add: handleGenerate_def canGenerate_def)

theorem handleGenerate_empty_witness:
  "names initialState = []
   \<and> handleGenerate sampleUnicode okBrowser initialState = (initialState, None)
   \<and> \<not> canGenerate initialState"
proof -
  have "names initialState = []" by (simp add: initialState_def)
  with handleGenerate_empty [of initialState sampleUnicode okBrowser] show ?thesis by simp
qed

text \<open>
  C7. When a generation reaches the template image and the image fails to decode, the
  run ends in the error state with the message of \<open>loadImage\<close>, and no archive is
  offered for download.
\<close>

theorem image_failure_aborts:
  assumes "names st \<noteq> []" and "fontsLoad env = None"
    and "decodeImage env (imageSource env st) = None"
  shows "handleGenerate U env st
           = (st\<lparr>generateStatus := GenerateError,
                 statusMessage := Some (js ''Unable to load template image. Please try again.'')\<rparr>,
              None)"
  using assms
  by (simp add: handleGenerate_def buildArchive_def loadImage_def catchMessage_def)

theorem image_failure_aborts_witness:
  "names loadedState \<noteq> [] \<and> fontsLoad brokenImageBrowser = None
   \<and> decodeImage brokenImageBrowser (imageSource brokenImageBrowser loadedState) = None
   \<and> generateStatus (fst (handleGenerate sampleUnicode brokenImageBrowser loadedState))
       = GenerateError
   \<and> statusMessage (fst (handleGenerate sampleUnicode brokenImageBrowser loadedState))
       = Some (js ''Unable to load template image. Please try again.'')
   \<and> snd (handleGenerate sampleUnicode brokenImageBrowser loadedState) = None"
proof -
  have h1: "names loadedState \<noteq> []" by (simp add: loadedState_names)
  have h2: "fontsLoad brokenImageBrowser = None"
    by (simp add: brokenImageBrowser_def okBrowser_def)
  have h3: "decodeImage brokenImageBrowser (imageSource brokenImageBrowser loadedState) = None"
    by (simp add: brokenImageBrowser_def)
  from image_failure_aborts [OF h1 h2 h3, of sampleUnicode] h1 h2 h3 show ?thesis by simp
qed

lemma generateLoop_fold:
  assumes "\<forall>n \<in> set ns. draw n = Inr (render n)"
  shows "generateLoop U draw ns idx zp
           = Inr (fold (\<lambda>i zp. zip_file zp (fileNameAt U ns i) (render (ns ! i)))
                    [idx ..< length ns] zp)"
  using assms
proof (induction U draw ns idx zp rule: generateLoop.induct)
  case (1 U draw ns idx zp)
  show ?case
  proof (cases "idx < length ns")
    case True
    then have d: "draw (ns ! idx) = Inr (render (ns ! idx))"
      using "1.prems" by simp
    have "generateLoop U draw ns idx zp
            = generateLoop U draw ns (idx + 1)
                (zip_file zp (slugify U (ns ! idx) idx @ js ''.png'') (render (ns ! idx)))"
      using True d by (subst generateLoop.simps) (simp add: Let_def)
    also have "\<dots> = Inr (fold (\<lambda>i zp. zip_file zp (fileNameAt U ns i) (render (ns ! i)))
                    [idx + 1 ..< length ns]
                    (zip_file zp (slugify U (ns ! idx) idx @ js ''.png'') (render (ns ! idx))))"
      using "1.IH" [OF True refl d] "1.prems" by simp
    finally show ?thesis
      using True by (simp add: upt_conv_Cons fileNameAt_def)
  next
    case False
    then show ?thesis by (subst generateLoop.simps) simp
  qed
qed

lemma entriesUpto_0: "entriesUpto U render ns 0 = []"
  by (simp add: entriesUpto_def)

lemma entriesUpto_Suc:
  "entriesUpto U render ns (Suc n)
     = zip_file (entriesUpto U render ns n) (fileNameAt U ns n) (render (ns ! n))"
  by (simp add: entriesUpto_def)

lemma entriesUpto_distinct: "distinct (map fst (entriesUpto U render ns n))"
  by (induction n) (simp_all add: entriesUpto_0 entriesUpto_Suc zip_file_def distinct_update)

lemma entriesUpto_keys:
  "fst ` set (entriesUpto U render ns n) = fileNameAt U ns ` {..< n}"
  by (induction n)
     (auto simp: entriesUpto_0 entriesUpto_Suc zip_file_def dom_update lessThan_Suc)

lemma entriesUpto_lookup:
  assumes "k < n" and "\<forall>m. k < m \<and> m < n \<longrightarrow> fileNameAt U ns m \<noteq> fileNameAt U ns k"
  shows "map_of (entriesUpto U render ns n) (fileNameAt U ns k) = Some (render (ns ! k))"
  using assms
proof (induction n)
  case 0
  then show ?case by simp
next
  case (Suc n)
  show ?case
  proof (cases "k = n")
    case True
    then show ?thesis
      by (simp add: entriesUpto_Suc zip_file_def update_conv')
  next
    case False
    with Suc.prems have kn: "k < n"
      by simp
    with Suc.prems(2) [rule_format, of n] have "fileNameAt U ns n \<noteq> fileNameAt U ns k"
      by simp
    then have ne: "fileNameAt U ns k \<noteq> fileNameAt U ns n"
      by (rule not_sym)
    from Suc.prems(2) have "\<forall>m. k < m \<and> m < n \<longrightarrow> fileNameAt U ns m \<noteq> fileNameAt U ns k"
      by simp
    with Suc.IH kn have "map_of (entriesUpto U render ns n) (fileNameAt U ns k)
                           = Some (render (ns ! k))"
      by simp
    with ne show ?thesis
      by (simp add: entriesUpto_Suc zip_file_def update_conv')
  qed
qed

lemma update_fresh: "k \<notin> fst ` set al \<Longrightarrow> AList.update k v al = al @ [(k, v)]"
  by (induction al) auto

lemma entriesUpto_distinct_names:
  assumes "distinct (map (fileNameAt U ns) [0 ..< n])"
  shows "entriesUpto U render ns n = map (\<lambda>i. (fileNameAt U ns i, render (ns ! i))) [0 ..< n]"
  using assms
proof (induction n)
  case 0
  then show ?case by (simp add: entriesUpto_0)
next
  case (Suc n)
  then have "fileNameAt U ns n \<notin> fileNameAt U ns ` {..< n}"
    by (auto simp: atLeast0LessThan)
  then have "fileNameAt U ns n \<notin> fst ` set (entriesUpto U render ns n)"
    by (simp add: entriesUpto_keys)
  then have "entriesUpto U render ns (Suc n)
               = entriesUpto U render ns n @ [(fileNameAt U ns n, render (ns ! n))]"
    by (simp add: entriesUpto_Suc zip_file_def update_fresh)
  moreover from Suc have "entriesUpto U render ns n
               = map (\<lambda>i. (fileNameAt U ns i, render (ns ! i))) [0 ..< n]"
    by simp
  ultimately show ?case by simp
qed

lemma single_entry:
  "distinct (map fst al) \<Longrightarrow> map_of al k = Some v \<Longrightarrow> filter (\<lambda>e. fst e = k) al = [(k, v)]"
proof (induction al)
  case Nil
  then show ?case by simp
next
  case (Cons p al)
  show ?case
  proof (cases "fst p = k")
    case True
    with Cons.prems have "p = (k, v)" by (cases p) simp
    moreover have "filter (\<lambda>e. fst e = k) al = []"
    proof -
      from True Cons.prems have "k \<notin> fst ` set al" by simp
      then have "\<forall>e \<in> set al. fst e \<noteq> k" by auto
      then show ?thesis by (simp add: filter_empty_conv)
    qed
    ultimately show ?thesis by simp
  next
    case False
    with Cons show ?thesis by (cases p) auto
  qed
qed

lemma buildArchive_ok:
  assumes "fontsLoad env = None"
    and "decodeImage env (imageSource env st) = Some img"
    and "getContext2d env"
    and "\<forall>n \<in> set (names st). drawCertificate env img n = Inr (render n)"
    and "generateAsync env = None"
  shows "buildArchive U env st = Inr (entriesUpto U render (names st) (length (names st)))"
  using assms generateLoop_fold [of "names st" "drawCertificate env img" render U 0 "[]"]
  by (simp add: buildArchive_def loadImage_def entriesUpto_def)

lemma handleGenerate_ok:
  assumes "names st \<noteq> []"
    and "fontsLoad env = None"
    and "decodeImage env (imageSource env st) = Some img"
    and "getContext2d env"
    and "\<forall>n \<in> set (names st). drawCertificate env img n = Inr (render n)"
    and "generateAsync env = None"
  shows "handleGenerate U env st
           = (st\<lparr>generateStatus := GenerateSuccess,
                 statusMessage :=
                   Some (js ''Certificates are ready. Download should begin shortly.'')\<rparr>,
              Some (js ''certificates.zip'', entriesUpto U render (names st) (length (names st))))"
  using assms(1) buildArchive_ok [OF assms(2-6), of U]
  by (simp add: handleGenerate_def)

lemma fileNameAt_eq: "fileNameAt U ns a = fileNameAt U ns b \<longleftrightarrow> slugify U (ns ! a) a = slugify U (ns ! b) b"
  by (simp add: fileNameAt_def)

text \<open>
  C2 (amended). For a non-empty name list and a run in which every step succeeds, the
  downloaded archive has exactly one entry for every distinct file name
  \<open>{slugify(name_i, i)}.png\<close>; when these file names are pairwise distinct, the archive
  is the list of the entries of the names in input order, entry \<open>i\<close> named
  \<open>{slugify(name_i, i)}.png\<close> and holding the image of \<open>name_i\<close>.
\<close>

theorem archive_entries:
  assumes "names st \<noteq> []"
    and "fontsLoad env = None"
    and "decodeImage env (imageSource env st) = Some img"
    and "getContext2d env"
    and "\<forall>n \<in> set (names st). drawCertificate env img n = Inr (render n)"
    and "generateAsync env = None"
  shows "\<exists>arch. snd (handleGenerate U env st) = Some (js ''certificates.zip'', arch)
           \<and> distinct (map fst arch)
           \<and> set (map fst arch) = set (fileNames U (names st))
           \<and> (distinct (fileNames U (names st))
                \<longrightarrow> arch = zip (fileNames U (names st)) (map render (names st)))"
proof -
  let ?ns = "names st"
  let ?arch = "entriesUpto U render ?ns (length ?ns)"
  have run: "snd (handleGenerate U env st) = Some (js ''certificates.zip'', ?arch)"
    using handleGenerate_ok [OF assms, of U] by simp
  have d: "distinct (map fst ?arch)"
    by (rule entriesUpto_distinct)
  have k: "set (map fst ?arch) = set (fileNames U ?ns)"
    by (simp add: entriesUpto_keys fileNames_def atLeast0LessThan)
  have o: "distinct (fileNames U ?ns) \<longrightarrow> ?arch = zip (fileNames U ?ns) (map render ?ns)"
  proof
    assume "distinct (fileNames U ?ns)"
    then have "?arch = map (\<lambda>i. (fileNameAt U ?ns i, render (?ns ! i))) [0 ..< length ?ns]"
      by (simp add: fileNames_def entriesUpto_distinct_names)
    also have "\<dots> = zip (fileNames U ?ns) (map render ?ns)"
      by (rule nth_equalityI) (simp_all add: fileNames_def)
    finally show "?arch = zip (fileNames U ?ns) (map render ?ns)" .
  qed
  from run d k o show ?thesis by blast
qed

lemma slug_Alice: "slugify sampleUnicode (js ''Alice'') i = js ''alice''"
  by (simp add: slugify_def slugChain_def sampleUnicode_def decomposeSample_def stripUnsafe_def
      trim_def char_defs)

lemma slug_alice: "slugify sampleUnicode (js ''alice'') i = js ''alice''"
  by (simp add: slugify_def slugChain_def sampleUnicode_def decomposeSample_def stripUnsafe_def
      trim_def char_defs)

lemma slug_Bob: "slugify sampleUnicode (js ''Bob'') i = js ''bob''"
  by (simp add: slugify_def slugChain_def sampleUnicode_def decomposeSample_def stripUnsafe_def
      trim_def char_defs)

lemma twoAlices_names: "names twoAlices = [js ''Alice'', js ''alice'']"
  by (simp add: twoAlices_def)

lemma twoAlices_run:
  "snd (handleGenerate sampleUnicode okBrowser twoAlices)
     = Some (js ''certificates.zip'', [(js ''alice.png'', js ''png:alice'')])"
proof -
  have "generateLoop sampleUnicode (\<lambda>name. Inr (js ''png:'' @ name)) [js ''Alice'', js ''alice''] 0 []
          = Inr [(js ''alice.png'', js ''png:alice'')]"
    by (simp add: generateLoop.simps [of _ _ _ 0] generateLoop.simps [of _ _ _ "Suc 0"]
        generateLoop.simps [of _ _ _ "Suc (Suc 0)"] Let_def slug_Alice slug_alice zip_file_def)
       (simp add: js_def)
  then show ?thesis
    by (simp add: handleGenerate_def buildArchive_def loadImage_def okBrowser_def twoAlices_names)
qed

lemma okBrowser_steps:
  "fontsLoad okBrowser = None"
  "decodeImage okBrowser src = Some ()"
  "getContext2d okBrowser"
  "drawCertificate okBrowser img n = Inr (js ''png:'' @ n)"
  "generateAsync okBrowser = None"
  by (simp_all add: okBrowser_def)

theorem archive_entries_witness:
  "names loadedState = [js ''Alice'', js ''Bob'']
   \<and> fileNames sampleUnicode (names loadedState) = [js ''alice.png'', js ''bob.png'']
   \<and> snd (handleGenerate sampleUnicode okBrowser loadedState)
       = Some (js ''certificates.zip'',
               [(js ''alice.png'', js ''png:Alice''), (js ''bob.png'', js ''png:Bob'')])"
proof -
  have fn: "fileNames sampleUnicode (names loadedState) = [js ''alice.png'', js ''bob.png'']"
    by (simp add: fileNames_def fileNameAt_def loadedState_names upt_rec slug_Alice slug_Bob)
       (simp add: js_def)
  then have d: "distinct (fileNames sampleUnicode (names loadedState))"
    by (simp add: js_def)
  have h1: "names loadedState \<noteq> []" by (simp add: loadedState_names)
  have h5: "\<forall>n \<in> set (names loadedState).
              drawCertificate okBrowser () n = Inr ((\<lambda>n. js ''png:'' @ n) n)"
    by (simp add: okBrowser_steps)
  from archive_entries [OF h1 okBrowser_steps(1,2,3) h5 okBrowser_steps(5), of sampleUnicode] d
  have "snd (handleGenerate sampleUnicode okBrowser loadedState)
          = Some (js ''certificates.zip'',
                  zip (fileNames sampleUnicode (names loadedState))
                      (map (\<lambda>n. js ''png:'' @ n) (names loadedState)))"
    by auto
  with fn loadedState_names show ?thesis
    by (simp add: js_def)
qed

text \<open>
  C2 as stated fails: the names "Alice" and "alice" give the same file name, and the
  archive of the two names has one entry.
\<close>

theorem one_entry_per_name_counterexample:
  "names twoAlices = [js ''Alice'', js ''alice'']
   \<and> fileNames sampleUnicode (names twoAlices) = [js ''alice.png'', js ''alice.png'']
   \<and> snd (handleGenerate sampleUnicode okBrowser twoAlices)
       = Some (js ''certificates.zip'', [(js ''alice.png'', js ''png:alice'')])"
proof -
  have "fileNames sampleUnicode (names twoAlices) = [js ''alice.png'', js ''alice.png'']"
    by (simp add: fileNames_def fileNameAt_def twoAlices_names upt_rec slug_Alice slug_alice)
       (simp add: js_def)
  with twoAlices_names twoAlices_run show ?thesis by simp
qed

lemma slug_ALICE: "slugify sampleUnicode (js ''ALICE'') i = js ''alice''"
  by (simp add: slugify_def slugChain_def sampleUnicode_def decomposeSample_def stripUnsafe_def
      trim_def char_defs)

lemma threeAlices_names: "names threeAlices = [js ''Alice'', js ''alice'', js ''ALICE'']"
  by (simp add: threeAlices_def)

lemma threeAlices_run:
  "snd (handleGenerate sampleUnicode okBrowser threeAlices)
     = Some (js ''certificates.zip'', [(js ''alice.png'', js ''png:ALICE'')])"
proof -
  have "generateLoop sampleUnicode (\<lambda>name. Inr (js ''png:'' @ name))
          [js ''Alice'', js ''alice'', js ''ALICE''] 0 []
          = Inr [(js ''alice.png'', js ''png:ALICE'')]"
    by (simp add: generateLoop.simps [of _ _ _ 0] generateLoop.simps [of _ _ _ "Suc 0"]
        generateLoop.simps [of _ _ _ "Suc (Suc 0)"] generateLoop.simps [of _ _ _ "Suc (Suc (Suc 0))"]
        Let_def slug_Alice slug_alice slug_ALICE zip_file_def)
       (simp add: js_def)
  then show ?thesis
    by (simp add: handleGenerate_def buildArchive_def loadImage_def okBrowser_def
        threeAlices_names)
qed

text \<open>
  C5 (amended). When the names at two indices \<open>i < j\<close> have the same slug, a run in which
  every step succeeds ends in the success state (no error), and the archive has a single
  entry under that file name; it holds the image of the name at the last index \<open>k \<ge> j\<close>
  with this slug, so every earlier entry under the name has been overwritten. When no
  name after index \<open>j\<close> has this slug, \<open>k\<close> is \<open>j\<close>: the entry holds the image of the later
  of the two names.
\<close>

theorem collision_overwrites:
  assumes "fontsLoad env = None"
    and "decodeImage env (imageSource env st) = Some img"
    and "getContext2d env"
    and "\<forall>n \<in> set (names st). drawCertificate env img n = Inr (render n)"
    and "generateAsync env = None"
    and "i < j" and "j < length (names st)"
    and "slugify U (names st ! i) i = slugify U (names st ! j) j"
  shows "\<exists>k arch. j \<le> k \<and> k < length (names st)
           \<and> slugify U (names st ! k) k = slugify U (names st ! j) j
           \<and> (\<forall>m. k < m \<and> m < length (names st)
                 \<longrightarrow> slugify U (names st ! m) m \<noteq> slugify U (names st ! j) j)
           \<and> ((\<forall>m. j < m \<and> m < length (names st)
                  \<longrightarrow> slugify U (names st ! m) m \<noteq> slugify U (names st ! j) j)
                \<longrightarrow> k = j)
           \<and> handleGenerate U env st
               = (st\<lparr>generateStatus := GenerateSuccess,
                     statusMessage :=
                       Some (js ''Certificates are ready. Download should begin shortly.'')\<rparr>,
                  Some (js ''certificates.zip'', arch))
           \<and> filter (\<lambda>entry. fst entry = slugify U (names st ! j) j @ js ''.png'') arch
               = [(slugify U (names st ! j) j @ js ''.png'', render (names st ! k))]"
proof -
  let ?ns = "names st"
  let ?n = "length ?ns"
  let ?slug = "\<lambda>m. slugify U (?ns ! m) m"
  let ?P = "\<lambda>m. m < ?n \<and> ?slug m = ?slug j"
  let ?arch = "entriesUpto U render ?ns ?n"
  define k where "k = Greatest ?P"
  have Pj: "?P j" using assms(7) by simp
  have bound: "\<And>y. ?P y \<Longrightarrow> y \<le> ?n" by simp
  have Pk: "?P k" unfolding k_def using Pj bound by (rule GreatestI_nat)
  have jk: "j \<le> k" unfolding k_def using Pj bound by (rule Greatest_le_nat)
  have last: "\<forall>m. k < m \<and> m < ?n \<longrightarrow> ?slug m \<noteq> ?slug j"
  proof (intro allI impI notI)
    fix m assume m: "k < m \<and> m < ?n" and "?slug m = ?slug j"
    then have "?P m" by simp
    then have "m \<le> k" unfolding k_def using bound by (rule Greatest_le_nat)
    with m show False by simp
  qed
  have only: "(\<forall>m. j < m \<and> m < ?n \<longrightarrow> ?slug m \<noteq> ?slug j) \<longrightarrow> k = j"
  proof
    assume none: "\<forall>m. j < m \<and> m < ?n \<longrightarrow> ?slug m \<noteq> ?slug j"
    show "k = j"
    proof (rule ccontr)
      assume "k \<noteq> j"
      with jk have "j < k" by simp
      with none Pk show False by blast
    qed
  qed
  from assms(6,7) have "?ns \<noteq> []" by auto
  then have run: "handleGenerate U env st
               = (st\<lparr>generateStatus := GenerateSuccess,
                     statusMessage :=
                       Some (js ''Certificates are ready. Download should begin shortly.'')\<rparr>,
                  Some (js ''certificates.zip'', ?arch))"
    using assms(1-5) by (rule handleGenerate_ok)
  have "\<forall>m. k < m \<and> m < ?n \<longrightarrow> fileNameAt U ?ns m \<noteq> fileNameAt U ?ns k"
    using last Pk by (simp add: fileNameAt_eq)
  with Pk have "map_of ?arch (fileNameAt U ?ns k) = Some (render (?ns ! k))"
    by (simp add: entriesUpto_lookup)
  moreover have "fileNameAt U ?ns k = ?slug j @ js ''.png''"
    using Pk by (simp add: fileNameAt_def)
  ultimately have "map_of ?arch (?slug j @ js ''.png'') = Some (render (?ns ! k))"
    by simp
  with entriesUpto_distinct [of U render ?ns ?n]
  have one: "filter (\<lambda>entry. fst entry = ?slug j @ js ''.png'') ?arch
               = [(?slug j @ js ''.png'', render (?ns ! k))]"
    by (rule single_entry)
  from jk Pk last only run one show ?thesis by blast
qed

text \<open>Three names with one slug, taken at the indices 0 and 1: the entry holds the image
  of the name at index 2.\<close>

theorem collision_overwrites_witness:
  "slugify sampleUnicode (names threeAlices ! 0) 0
     = slugify sampleUnicode (names threeAlices ! 1) 1
   \<and> generateStatus (fst (handleGenerate sampleUnicode okBrowser threeAlices)) = GenerateSuccess
   \<and> snd (handleGenerate sampleUnicode okBrowser threeAlices)
       = Some (js ''certificates.zip'', [(js ''alice.png'', js ''png:ALICE'')])"
proof -
  have h5: "\<forall>n \<in> set (names threeAlices).
              drawCertificate okBrowser () n = Inr ((\<lambda>n. js ''png:'' @ n) n)"
    by (simp add: okBrowser_steps)
  have h6: "(0::nat) < 1" by simp
  have h7: "1 < length (names threeAlices)" by (simp add: threeAlices_names)
  have h8: "slugify sampleUnicode (names threeAlices ! 0) 0
              = slugify sampleUnicode (names threeAlices ! 1) 1"
    by (simp add: threeAlices_names slug_Alice slug_alice)
  from collision_overwrites [OF okBrowser_steps(1,2,3) h5 okBrowser_steps(5) h6 h7 h8]
  obtain k arch where
    "handleGenerate sampleUnicode okBrowser threeAlices
       = (threeAlices\<lparr>generateStatus := GenerateSuccess,
                      statusMessage :=
                        Some (js ''Certificates are ready. Download should begin shortly.'')\<rparr>,
          Some (js ''certificates.zip'', arch))"
    by blast
  then have "generateStatus (fst (handleGenerate sampleUnicode okBrowser threeAlices))
               = GenerateSuccess"
    by simp
  with h8 threeAlices_run show ?thesis by simp
qed

text \<open>
  C5 as stated fails: in the list "Alice", "alice", "ALICE" the names at the indices 0 and
  1 have the same slug, and the single entry under that file name holds the image of
  "ALICE", not the image of the later of the two, "alice".
\<close>

theorem later_name_render_counterexample:
  "names threeAlices = [js ''Alice'', js ''alice'', js ''ALICE'']
   \<and> slugify sampleUnicode (names threeAlices ! 0) 0
       = slugify sampleUnicode (names threeAlices ! 1) 1
   \<and> drawCertificate okBrowser () (names threeAlices ! 1) = Inr (js ''png:alice'')
   \<and> snd (handleGenerate sampleUnicode okBrowser threeAlices)
       = Some (js ''certificates.zip'', [(js ''alice.png'', js ''png:ALICE'')])
   \<and> js ''png:ALICE'' \<noteq> js ''png:alice''"
proof -
  have "slugify sampleUnicode (names threeAlices ! 0) 0
          = slugify sampleUnicode (names threeAlices ! 1) 1"
    by (simp add: threeAlices_names slug_Alice slug_alice)
  moreover have "drawCertificate okBrowser () (names threeAlices ! 1) = Inr (js ''png:alice'')"
    by (simp add: okBrowser_steps threeAlices_names js_def)
  moreover have "js ''png:ALICE'' \<noteq> js ''png:alice''"
    by (simp add: js_def)
  ultimately show ?thesis
    using threeAlices_names threeAlices_run by simp
qed

end
